theory Spec2Isabelle
  imports Complex_Main "HOL-Library.Log_Nat" "HOL-Library.Multiset"
begin

section \<open>JavaScript numbers\<close>

text \<open>
  The plugin computes with JavaScript numbers, which are IEEE 754 binary64 values. A
  finite number is modelled by the rational it denotes, and every arithmetic operation
  rounds the exact result to the nearest binary64 value, ties to even. Infinities, NaN
  and the sign of zero are not modelled: the operations below agree with JavaScript as
  long as no operation overflows (no result of magnitude \<open>2 ^ 1024 - 2 ^ 970\<close> or
  more), which holds for colour components in \<open>[0, 1]\<close> and for frame
  coordinates. The comparisons of the plugin do not tell the two zeros apart, and it
  divides by positive numbers only.

  \<open>rhe\<close> rounds a rational to the nearest integer, ties to the even one.
  \<open>rnd53\<close> rounds a rational that has been scaled by \<open>2 ^ 1074\<close> (so that the
  smallest subnormal is \<open>1\<close>): below \<open>2 ^ 53\<close> the spacing is \<open>1\<close>, above
  it the significand keeps 53 bits.
\<close>

type_synonym number = rat

definition rhe :: "rat \<Rightarrow> int" where
  "rhe y = (let n = \<lfloor>y\<rfloor>; f = y - of_int n
            in if f < 1 / 2 then n
               else if 1 / 2 < f then n + 1
               else if even n then n else n + 1)"

definition quantum :: "rat \<Rightarrow> nat" where
  "quantum y = nat (bitlen \<lfloor>y\<rfloor> - 53)"

definition rnd53 :: "rat \<Rightarrow> rat" where
  "rnd53 y = of_int (rhe (y / 2 ^ quantum y)) * 2 ^ quantum y"

definition denorm :: rat where
  "denorm = 2 ^ 1074"

definition rnd :: "rat \<Rightarrow> number" where
  "rnd x = sgn x * (rnd53 (\<bar>x\<bar> * denorm) / denorm)"

definition fadd :: "number \<Rightarrow> number \<Rightarrow> number" where
  "fadd x y = rnd (x + y)"

definition fsub :: "number \<Rightarrow> number \<Rightarrow> number" where
  "fsub x y = rnd (x - y)"

definition fmul :: "number \<Rightarrow> number \<Rightarrow> number" where
  "fmul x y = rnd (x * y)"

definition fdiv :: "number \<Rightarrow> number \<Rightarrow> number" where
  "fdiv x y = rnd (x / y)"

section \<open>The host's scene graph\<close>

text \<open>
  Layers are host objects that the plugin reads and mutates through handles. The model
  keeps them in a store indexed by handle. \<open>cls\<close> is the class that
  \<open>isKindOfClass\<close> tests, with the host's class hierarchy flattened to the four
  classes the plugin asks for and one class for everything else. \<open>fills\<close> lists the
  colours of \<open>style().fills()\<close> in order; \<open>layers\<close> is the list of child
  layers, read by both \<open>layers()\<close> and \<open>children()\<close>.
\<close>

type_synonym oid = nat

datatype cls = MSShapeGroup | MSSymbolInstance | MSSymbolMaster | MSArtboardGroup | MSLayer

record color =
  red :: number
  green :: number
  blue :: number

record frame =
  left :: number
  top' :: number
  width :: number
  height :: number

record layer =
  cls :: cls
  name :: string
  frame :: frame
  fills :: "color list"
  layers :: "oid list"
  symbolMaster :: "oid option"
  parent :: "oid option"

record world =
  heap :: "oid \<Rightarrow> layer"
  fresh :: oid
  page :: oid
  messages :: "string list"

text \<open>
  The only exception the plugin can raise: a method call on \<open>undefined\<close> or
  \<open>null\<close>, as in \<open>fills()[0].color()\<close> on an empty fill list.
\<close>

datatype error = TypeError

definition isKindOfClass :: "world \<Rightarrow> oid \<Rightarrow> cls \<Rightarrow> bool" where
  "isKindOfClass w l c = (cls (heap w l) = c)"

definition showMessage :: "world \<Rightarrow> string \<Rightarrow> world" where
  "showMessage w m = w\<lparr>messages := messages w @ [m]\<rparr>"

definition setFrame :: "world \<Rightarrow> oid \<Rightarrow> (frame \<Rightarrow> frame) \<Rightarrow> world" where
  "setFrame w l f = w\<lparr>heap := (heap w)(l := (heap w l)\<lparr>frame := f (frame (heap w l))\<rparr>)\<rparr>"

definition setLeft :: "world \<Rightarrow> oid \<Rightarrow> number \<Rightarrow> world" where
  "setLeft w l v = setFrame w l (\<lambda>f. f\<lparr>left := v\<rparr>)"

definition setTop :: "world \<Rightarrow> oid \<Rightarrow> number \<Rightarrow> world" where
  "setTop w l v = setFrame w l (\<lambda>f. f\<lparr>top' := v\<rparr>)"

definition setWidth :: "world \<Rightarrow> oid \<Rightarrow> number \<Rightarrow> world" where
  "setWidth w l v = setFrame w l (\<lambda>f. f\<lparr>width := v\<rparr>)"

definition setHeight :: "world \<Rightarrow> oid \<Rightarrow> number \<Rightarrow> world" where
  "setHeight w l v = setFrame w l (\<lambda>f. f\<lparr>height := v\<rparr>)"

definition setName :: "world \<Rightarrow> oid \<Rightarrow> string \<Rightarrow> world" where
  "setName w l n = w\<lparr>heap := (heap w)(l := (heap w l)\<lparr>name := n\<rparr>)\<rparr>"

text \<open>\<open>MSArtboardGroup.new()\<close>: a new, empty, detached artboard under a fresh handle.\<close>

definition newArtboard :: "world \<Rightarrow> world \<times> oid" where
  "newArtboard w =
     (w\<lparr>heap := (heap w)(fresh w :=
          \<lparr>cls = MSArtboardGroup, name = [],
           frame = \<lparr>left = 0, top' = 0, width = 0, height = 0\<rparr>,
           fills = [], layers = [], symbolMaster = None, parent = None\<rparr>),
        fresh := Suc (fresh w)\<rparr>,
      fresh w)"

text \<open>\<open>layer.copy()\<close>: a detached duplicate of the layer under a fresh handle.\<close>

definition copyLayer :: "world \<Rightarrow> oid \<Rightarrow> world \<times> oid" where
  "copyLayer w l =
     (w\<lparr>heap := (heap w)(fresh w := (heap w l)\<lparr>parent := None\<rparr>),
        fresh := Suc (fresh w)\<rparr>,
      fresh w)"

definition addLayer :: "world \<Rightarrow> oid \<Rightarrow> oid \<Rightarrow> world" where
  "addLayer w p c =
     (let h1 = (heap w)(p := (heap w p)\<lparr>layers := layers (heap w p) @ [c]\<rparr>)
      in w\<lparr>heap := h1(c := (h1 c)\<lparr>parent := Some p\<rparr>)\<rparr>)"

definition removeFromParent :: "world \<Rightarrow> oid \<Rightarrow> world" where
  "removeFromParent w l =
     (case parent (heap w l) of
        None \<Rightarrow> w
      | Some p \<Rightarrow>
          (let h1 = (heap w)(p := (heap w p)\<lparr>layers := removeAll l (layers (heap w p))\<rparr>)
           in w\<lparr>heap := h1(l := (h1 l)\<lparr>parent := None\<rparr>)\<rparr>))"

text \<open>
  \<open>Array.prototype.forEach\<close>: the callback runs on each element in order, its return
  value is discarded, and an exception it raises ends the loop and propagates.
\<close>

fun forEach :: "('a \<Rightarrow> error + 'b) \<Rightarrow> 'a list \<Rightarrow> error + unit" where
  "forEach f [] = Inr ()"
| "forEach f (x # xs) = (case f x of Inl e \<Rightarrow> Inl e | Inr _ \<Rightarrow> forEach f xs)"

text \<open>
  \<open>Array.prototype.sort\<close> with a comparator is the host's. It is modelled by a stable
  insertion sort: \<open>x\<close> goes before \<open>y\<close> when the comparator's result is not
  positive. An exception raised by the comparator propagates.
\<close>

fun insertSorted :: "('a \<Rightarrow> 'a \<Rightarrow> error + number) \<Rightarrow> 'a \<Rightarrow> 'a list \<Rightarrow> error + 'a list" where
  "insertSorted cmp x [] = Inr [x]"
| "insertSorted cmp x (y # ys) =
     (case cmp x y of
        Inl e \<Rightarrow> Inl e
      | Inr c \<Rightarrow>
          if c \<le> 0 then Inr (x # y # ys)
          else (case insertSorted cmp x ys of Inl e \<Rightarrow> Inl e | Inr zs \<Rightarrow> Inr (y # zs)))"

fun arraySort :: "('a \<Rightarrow> 'a \<Rightarrow> error + number) \<Rightarrow> 'a list \<Rightarrow> error + 'a list" where
  "arraySort cmp [] = Inr []"
| "arraySort cmp (x # xs) =
     (case arraySort cmp xs of Inl e \<Rightarrow> Inl e | Inr ys \<Rightarrow> insertSorted cmp x ys)"

section \<open>Background colour of a layer\<close>

text \<open>\<open>x.style().fills()[0].color()\<close>: the access is not guarded.\<close>

definition firstFillColor :: "world \<Rightarrow> oid \<Rightarrow> error + color" where
  "firstFillColor w l = (case fills (heap w l) of [] \<Rightarrow> Inl TypeError | c # _ \<Rightarrow> Inr c)"

text \<open>
  The callback of the two child scans. Its \<open>return\<close> leaves the callback only, so
  \<open>forEach\<close> discards the colour.
\<close>

definition childBackground :: "world \<Rightarrow> oid \<Rightarrow> error + color option" where
  "childBackground w child =
     (if isKindOfClass w child MSShapeGroup
      then (case firstFillColor w child of Inl e \<Rightarrow> Inl e | Inr c \<Rightarrow> Inr (Some c))
      else Inr None)"

definition getLayerBackground :: "world \<Rightarrow> oid \<Rightarrow> error + color option" where
  "getLayerBackground w l =
     (if isKindOfClass w l MSShapeGroup then
        (case firstFillColor w l of Inl e \<Rightarrow> Inl e | Inr c \<Rightarrow> Inr (Some c))
      else if isKindOfClass w l MSSymbolInstance then
        (case symbolMaster (heap w l) of
           None \<Rightarrow> Inl TypeError
         | Some m \<Rightarrow>
             (case forEach (childBackground w) (layers (heap w m)) of
                Inl e \<Rightarrow> Inl e
              | Inr _ \<Rightarrow> Inr None))
      else if isKindOfClass w l MSSymbolMaster then
        (case forEach (childBackground w) (layers (heap w l)) of
           Inl e \<Rightarrow> Inl e
         | Inr _ \<Rightarrow> Inr None)
      else Inr None)"

fun collectColorLayers :: "world \<Rightarrow> oid list \<Rightarrow> oid list \<Rightarrow> error + oid list" where
  "collectColorLayers w colorLayers [] = Inr colorLayers"
| "collectColorLayers w colorLayers (l # ls) =
     (case getLayerBackground w l of
        Inl e \<Rightarrow> Inl e
      | Inr bg \<Rightarrow>
          collectColorLayers w (if bg \<noteq> None then colorLayers @ [l] else colorLayers) ls)"

definition getLayersWithBackgroundColor :: "world \<Rightarrow> oid list \<Rightarrow> error + oid list" where
  "getLayersWithBackgroundColor w ls = collectColorLayers w [] ls"

section \<open>Hue of a colour\<close>

record layerColor = color +
  chroma :: number
  hue :: number
  sat :: number
  val :: number
  luma :: number

text \<open>
  The hue of the case split on the channel that equals the maximum. When no branch
  fires the hue keeps its initial value 0.
\<close>

definition hueOf :: "number \<Rightarrow> number \<Rightarrow> number \<Rightarrow> number \<Rightarrow> number \<Rightarrow> number \<Rightarrow> number" where
  "hueOf r g b mx mn chr =
     (if r = mx then
        (let h = fmul 60 (fdiv (fsub (fsub g mn) (fsub b mn)) chr)
         in if h < 0 then fadd h 360 else h)
      else if g = mx then fadd 120 (fmul 60 (fdiv (fsub (fsub b mn) (fsub r mn)) chr))
      else if b = mx then fadd 240 (fmul 60 (fdiv (fsub (fsub r mn) (fsub g mn)) chr))
      else 0)"

text \<open>
  The body of \<open>constructLayerColor\<close> once the layer's colour is known.
  \<open>parseFloat\<close> of a number is that number, and the literals \<open>0.3\<close>,
  \<open>0.59\<close> and \<open>0.11\<close> denote the nearest binary64 values.
\<close>

definition hsvOf :: "color \<Rightarrow> layerColor" where
  "hsvOf c =
     (let r = red c; g = green c; b = blue c;
          mx = max (max r g) b;
          mn = min (min r g) b;
          chr = fsub mx mn;
          v = mx;
          s = (if 0 < v then fdiv chr v else 0);
          h = (if 0 < v \<and> 0 < s then hueOf r g b mx mn chr else 0)
      in \<lparr>red = r, green = g, blue = b, chroma = chr, hue = h, sat = s, val = v,
          luma = fadd (fadd (fmul (rnd (3 / 10)) r) (fmul (rnd (59 / 100)) g))
                      (fmul (rnd (11 / 100)) b)\<rparr>)"

definition constructLayerColor :: "world \<Rightarrow> oid \<Rightarrow> error + layerColor option" where
  "constructLayerColor w l =
     (case getLayerBackground w l of
        Inl e \<Rightarrow> Inl e
      | Inr None \<Rightarrow> Inr None
      | Inr (Some c) \<Rightarrow> Inr (Some (hsvOf c)))"

definition getLayerHue :: "world \<Rightarrow> oid \<Rightarrow> error + number" where
  "getLayerHue w l =
     (case constructLayerColor w l of
        Inl e \<Rightarrow> Inl e
      | Inr None \<Rightarrow> Inr 0
      | Inr (Some c) \<Rightarrow> Inr (hue c))"

definition compareHue :: "world \<Rightarrow> oid \<Rightarrow> oid \<Rightarrow> error + number" where
  "compareHue w a b =
     (case getLayerHue w a of
        Inl e \<Rightarrow> Inl e
      | Inr ha \<Rightarrow> (case getLayerHue w b of Inl e \<Rightarrow> Inl e | Inr hb \<Rightarrow> Inr (fsub ha hb)))"

definition sortLayersByHue :: "world \<Rightarrow> oid list \<Rightarrow> error + oid list" where
  "sortLayersByHue w ls = arraySort (compareHue w) ls"

section \<open>Layout and the entry point\<close>

text \<open>
  The loop of the layout pass. \<open>lastFrame\<close> is a reference to the frame of the layer
  placed before, so it is kept as that layer's handle and read through the store.
\<close>

fun positionLayers :: "world \<Rightarrow> oid \<Rightarrow> number \<Rightarrow> oid option \<Rightarrow> oid list \<Rightarrow> world \<times> number" where
  "positionLayers w artboard h lastFrame [] = (w, h)"
| "positionLayers w artboard h None (l # ls) =
     positionLayers (setLeft (setTop w l 5) l 5) artboard h (Some l) ls"
| "positionLayers w artboard h (Some p) (l # ls) =
     (if fsub (width (frame (heap w artboard))) 10
           < fadd (fadd (fadd (left (frame (heap w p))) (width (frame (heap w p)))) 5)
                  (width (frame (heap w l)))
      then
        (let w1 = setLeft w l 5;
             w2 = setTop w1 l (fadd (fadd (top' (frame (heap w1 p))) (height (frame (heap w1 p)))) 5)
         in positionLayers w2 artboard (fadd h (fadd (height (frame (heap w2 l))) 5)) (Some l) ls)
      else
        (let w1 = setLeft w l (fadd (fadd (left (frame (heap w p))) (width (frame (heap w p)))) 5);
             w2 = setTop w1 l (top' (frame (heap w1 p)))
         in positionLayers w2 artboard h (Some l) ls))"

text \<open>The layout pass: the last part of \<open>sortByHue\<close>, on the sorted layers.\<close>

definition layoutLayers :: "world \<Rightarrow> oid \<Rightarrow> oid list \<Rightarrow> error + world" where
  "layoutLayers w artboard ls =
     (case ls of
        [] \<Rightarrow> Inl TypeError
      | l0 # _ \<Rightarrow>
          (case positionLayers w artboard (fadd (height (frame (heap w l0))) 10) None ls of
             (w', h) \<Rightarrow> Inr (setHeight w' artboard h)))"

text \<open>The loop that moves a copy of each selected layer into the new artboard.\<close>

fun moveIntoArtboard :: "world \<Rightarrow> oid \<Rightarrow> oid list \<Rightarrow> world" where
  "moveIntoArtboard w artboard [] = w"
| "moveIntoArtboard w artboard (l # ls) =
     (case copyLayer w l of
        (w1, c) \<Rightarrow> moveIntoArtboard (removeFromParent (addLayer w1 artboard c) l) artboard ls)"

text \<open>The branch of \<open>sortByHue\<close> that creates the artboard \<open>Colors\<close>.\<close>

definition createArtboard :: "world \<Rightarrow> oid list \<Rightarrow> error + world \<times> oid \<times> oid list" where
  "createArtboard w ls =
     (case ls of
        [] \<Rightarrow> Inl TypeError
      | l0 # _ \<Rightarrow>
          (case newArtboard w of
             (w1, artboard) \<Rightarrow>
               (let w2 = setName w1 artboard ''Colors'';
                    w3 = setLeft w2 artboard (left (frame (heap w2 l0)));
                    w4 = setTop w3 artboard (top' (frame (heap w3 l0)));
                    w5 = setWidth w4 artboard 600;
                    w6 = setHeight w5 artboard 600;
                    w7 = addLayer w6 (page w6) artboard;
                    w8 = moveIntoArtboard w7 artboard ls
                in (case getLayersWithBackgroundColor w8 (layers (heap w8 artboard)) of
                      Inl e \<Rightarrow> Inl e
                    | Inr ls' \<Rightarrow> Inr (w8, artboard, ls')))))"

definition sortByHue :: "world \<Rightarrow> oid list \<Rightarrow> error + world" where
  "sortByHue w selection =
     (let single = (length selection = 1 \<and> isKindOfClass w (hd selection) MSArtboardGroup);
          artboard = (if single then Some (hd selection) else None);
          ls = (if single then layers (heap w (hd selection)) else selection)
      in if length ls < 1 then Inr (showMessage w ''No layers selected!'')
         else
           (case getLayersWithBackgroundColor w ls of
              Inl e \<Rightarrow> Inl e
            | Inr ls1 \<Rightarrow>
                if length ls1 < 1 then Inr (showMessage w ''No layers with background selected!'')
                else
                  (case (case artboard of
                           Some a \<Rightarrow> Inr (w, a, ls1)
                         | None \<Rightarrow> createArtboard w ls1) of
                     Inl e \<Rightarrow> Inl e
                   | Inr (w1, a, ls2) \<Rightarrow>
                       (case sortLayersByHue w1 ls2 of
                          Inl e \<Rightarrow> Inl e
                        | Inr ls3 \<Rightarrow> layoutLayers w1 a ls3))))"

section \<open>Notions used in the proofs\<close>

text \<open>
  \<open>framesMoved w w' S\<close>: the world \<open>w'\<close> differs from \<open>w\<close> at most in the
  frames of the layers in \<open>S\<close>, and there at most in \<open>left\<close> and \<open>top\<close>.
\<close>

definition framesMoved :: "world \<Rightarrow> world \<Rightarrow> oid set \<Rightarrow> bool" where
  "framesMoved w w' S \<longleftrightarrow>
     fresh w' = fresh w \<and> page w' = page w \<and> messages w' = messages w \<and>
     (\<forall>l. heap w' l = (heap w l)\<lparr>frame := frame (heap w' l)\<rparr> \<and>
          width (frame (heap w' l)) = width (frame (heap w l)) \<and>
          height (frame (heap w' l)) = height (frame (heap w l)) \<and>
          (l \<notin> S \<longrightarrow> heap w' l = heap w l))"

text \<open>The key by which \<open>sortLayersByHue\<close> orders a layer whose colour can be read.\<close>

definition hueKey :: "world \<Rightarrow> oid \<Rightarrow> number" where
  "hueKey w l = (case getLayerBackground w l of Inr (Some c) \<Rightarrow> hue (hsvOf c) | _ \<Rightarrow> 0)"

section \<open>Example scenes\<close>

text \<open>Concrete documents on which the theorems below are instantiated.\<close>

definition emptyLayer :: layer where
  "emptyLayer =
     \<lparr>cls = MSLayer, name = [], frame = \<lparr>left = 0, top' = 0, width = 0, height = 0\<rparr>,
      fills = [], layers = [], symbolMaster = None, parent = None\<rparr>"

definition scene :: "(oid \<times> layer) list \<Rightarrow> world" where
  "scene ls =
     \<lparr>heap = (\<lambda>l. case map_of ls l of None \<Rightarrow> emptyLayer | Some x \<Rightarrow> x),
      fresh = 100, page = 0, messages = []\<rparr>"

definition shape :: "color list \<Rightarrow> number \<Rightarrow> number \<Rightarrow> layer" where
  "shape cs wd ht =
     emptyLayer\<lparr>cls := MSShapeGroup, fills := cs,
                frame := \<lparr>left = 0, top' = 0, width = wd, height = ht\<rparr>\<rparr>"

text \<open>
  A symbol instance \<open>1\<close> of the symbol master \<open>2\<close>, whose children are a text
  layer and a red shape.
\<close>

definition symbolScene :: world where
  "symbolScene =
     scene [(1, emptyLayer\<lparr>cls := MSSymbolInstance, symbolMaster := Some 2\<rparr>),
            (2, emptyLayer\<lparr>cls := MSSymbolMaster, layers := [3, 4]\<rparr>),
            (3, emptyLayer),
            (4, shape [\<lparr>red = 1, green = 0, blue = 0\<rparr>] 40 20)]"

text \<open>A shape without fills and a shape with a red and a blue fill.\<close>

definition shapeScene :: world where
  "shapeScene =
     scene [(1, shape [] 40 20),
            (2, shape [\<lparr>red = 1, green = 0, blue = 0\<rparr>, \<lparr>red = 0, green = 0, blue = 1\<rparr>] 40 20)]"

text \<open>An artboard without children and an artboard that holds one text layer.\<close>

definition artboardScene :: world where
  "artboardScene =
     scene [(1, emptyLayer\<lparr>cls := MSArtboardGroup\<rparr>),
            (2, emptyLayer\<lparr>cls := MSArtboardGroup, layers := [3]\<rparr>),
            (3, emptyLayer)]"

text \<open>An artboard of width 100 with a red, a green and a blue shape of 40 by 20.\<close>

definition layoutScene :: world where
  "layoutScene =
     scene [(1, emptyLayer\<lparr>cls := MSArtboardGroup, layers := [2, 3, 4],
                           frame := \<lparr>left = 0, top' = 0, width = 100, height = 600\<rparr>\<rparr>),
            (2, shape [\<lparr>red = 1, green = 0, blue = 0\<rparr>] 40 20),
            (3, shape [\<lparr>red = 0, green = 1, blue = 0\<rparr>] 40 20),
            (4, shape [\<lparr>red = 0, green = 0, blue = 1\<rparr>] 40 20)]"

text \<open>An artboard whose only child is a shape without fills.\<close>

definition containerScene :: world where
  "containerScene =
     scene [(1, emptyLayer\<lparr>cls := MSArtboardGroup, layers := [2]\<rparr>),
            (2, shape [] 40 20)]"

section \<open>Properties of rounding\<close>

text \<open>
  Rounding is monotone, idempotent, odd, and exact on every integer multiple of a power
  of two whose significand fits 53 bits.
\<close>

lemma rhe_of_int: "rhe (of_int n) = n"
  by (simp add: rhe_def)

lemma rhe_bounds: "\<lfloor>y\<rfloor> \<le> rhe y" "rhe y \<le> \<lfloor>y\<rfloor> + 1"
  by (simp_all add: rhe_def Let_def)

lemma rhe_mono: "x \<le> y \<Longrightarrow> rhe x \<le> rhe y"
proof -
  assume xy: "x \<le> y"
  then have fl: "\<lfloor>x\<rfloor> \<le> \<lfloor>y\<rfloor>" by (rule floor_mono)
  show ?thesis
  proof (cases "\<lfloor>x\<rfloor> = \<lfloor>y\<rfloor>")
    case True
    with xy show ?thesis by (auto simp: rhe_def Let_def)
  next
    case False
    with fl have "\<lfloor>x\<rfloor> + 1 \<le> \<lfloor>y\<rfloor>" by simp
    with rhe_bounds(2)[of x] rhe_bounds(1)[of y] show ?thesis by linarith
  qed
qed

lemma quantum_mono: "x \<le> y \<Longrightarrow> quantum x \<le> quantum y"
  unfolding quantum_def bitlen_def
  by (intro nat_mono diff_right_mono) (simp add: floorlog_mono floor_mono nat_mono)

lemma quantum_upper: "y < 2 ^ 53 * 2 ^ quantum y"
proof -
  have "bitlen \<lfloor>y\<rfloor> \<le> 53 + int (quantum y)" by (simp add: quantum_def)
  then have "\<lfloor>y\<rfloor> < 2 ^ nat (53 + int (quantum y))"
    by (simp add: bitlen_le_iff_power)
  then have "\<lfloor>y\<rfloor> < 2 ^ (53 + quantum y)" by (simp add: nat_add_distrib)
  then have "y < of_int (2 ^ (53 + quantum y))" by (simp only: floor_less_iff)
  then show ?thesis by (simp add: power_add)
qed

lemma quantum_lower: "0 < quantum y \<Longrightarrow> 2 ^ 52 * 2 ^ quantum y \<le> y"
proof -
  assume q: "0 < quantum y"
  then have "53 + int (quantum y) \<le> bitlen \<lfloor>y\<rfloor>" by (simp add: quantum_def)
  then have "2 ^ (nat (53 + int (quantum y)) - 1) \<le> \<lfloor>y\<rfloor>"
    using q by (simp add: bitlen_ge_iff_power)
  moreover have "nat (53 + int (quantum y)) - 1 = 52 + quantum y" by (simp add: nat_add_distrib)
  ultimately have "2 ^ (52 + quantum y) \<le> \<lfloor>y\<rfloor>" by simp
  then have "of_int (2 ^ (52 + quantum y)) \<le> y" by (simp only: le_floor_iff)
  then show ?thesis by (simp add: power_add)
qed


lemma rnd53_le: "rnd53 y \<le> 2 ^ 53 * 2 ^ quantum y"
proof -
  have "y / 2 ^ quantum y \<le> of_int (2 ^ 53)"
    using quantum_upper[of y] by (simp add: divide_le_eq)
  then have "rhe (y / 2 ^ quantum y) \<le> 2 ^ 53"
    using rhe_mono rhe_of_int by metis
  then have "rat_of_int (rhe (y / 2 ^ quantum y)) \<le> of_int (2 ^ 53)"
    by (simp only: of_int_le_iff)
  then show ?thesis
    unfolding rnd53_def by (simp add: mult_right_mono)
qed

lemma rnd53_ge: "0 < quantum y \<Longrightarrow> 2 ^ 52 * 2 ^ quantum y \<le> rnd53 y"
proof -
  assume "0 < quantum y"
  then have "of_int (2 ^ 52) \<le> y / 2 ^ quantum y"
    using quantum_lower[of y] by (simp add: le_divide_eq)
  then have "2 ^ 52 \<le> rhe (y / 2 ^ quantum y)"
    using rhe_mono rhe_of_int by metis
  then have "rat_of_int (2 ^ 52) \<le> of_int (rhe (y / 2 ^ quantum y))"
    by (simp only: of_int_le_iff)
  then show ?thesis
    unfolding rnd53_def by (simp add: mult_right_mono)
qed

lemma rnd53_nonneg: "0 \<le> y \<Longrightarrow> 0 \<le> rnd53 y"
proof -
  assume "0 \<le> y"
  then have "0 \<le> \<lfloor>y / 2 ^ quantum y\<rfloor>" by simp
  with rhe_bounds(1)[of "y / 2 ^ quantum y"] have "0 \<le> rhe (y / 2 ^ quantum y)" by linarith
  then show ?thesis unfolding rnd53_def by simp
qed

lemma rnd53_mono: "x \<le> y \<Longrightarrow> rnd53 x \<le> rnd53 y"
proof -
  assume xy: "x \<le> y"
  then have q: "quantum x \<le> quantum y" by (rule quantum_mono)
  show ?thesis
  proof (cases "quantum x = quantum y")
    case True
    have "x / 2 ^ quantum y \<le> y / 2 ^ quantum y"
      using xy by (simp add: divide_right_mono)
    then have "rat_of_int (rhe (x / 2 ^ quantum y)) \<le> of_int (rhe (y / 2 ^ quantum y))"
      by (simp add: rhe_mono)
    then show ?thesis unfolding rnd53_def True by (simp add: mult_right_mono)
  next
    case False
    with q have lt: "Suc (quantum x) \<le> quantum y" by simp
    have "rnd53 x \<le> 2 ^ 52 * 2 ^ Suc (quantum x)"
      using rnd53_le[of x] by simp
    also have "\<dots> \<le> 2 ^ 52 * (2::rat) ^ quantum y"
      using lt by (intro mult_left_mono power_increasing) simp_all
    also have "\<dots> \<le> rnd53 y"
      using lt by (intro rnd53_ge) simp
    finally show ?thesis .
  qed
qed

lemma rnd53_fix:
  assumes "quantum y \<le> k" and "y = of_int m * 2 ^ k"
  shows "rnd53 y = y"
proof -
  have "(2::rat) ^ k = 2 ^ (k - quantum y) * 2 ^ quantum y"
    using assms(1) by (simp flip: power_add)
  then have "y = of_int (m * 2 ^ (k - quantum y)) * 2 ^ quantum y"
    using assms(2) by simp
  then have "y / 2 ^ quantum y = of_int (m * 2 ^ (k - quantum y))"
    by (simp add: field_simps)
  then have "rhe (y / 2 ^ quantum y) = m * 2 ^ (k - quantum y)"
    by (simp only: rhe_of_int)
  then show ?thesis
    unfolding rnd53_def using \<open>y = of_int (m * 2 ^ (k - quantum y)) * 2 ^ quantum y\<close> by simp
qed

lemma rnd53_exact:
  assumes "0 \<le> n" and "n \<le> 2 ^ 53"
  shows "rnd53 (of_int n * 2 ^ k) = of_int n * 2 ^ k"
proof -
  consider "n = 0" | "0 < n" "n < 2 ^ 53" | "n = 2 ^ 53" using assms by linarith
  then show ?thesis
  proof cases
    case 1
    have "quantum 0 = 0" by (simp add: quantum_def)
    then have "rnd53 0 = 0" by (simp add: rnd53_def rhe_def)
    with 1 show ?thesis by simp
  next
    case 2
    have fl: "\<lfloor>rat_of_int n * 2 ^ k\<rfloor> = n * 2 ^ k"
      by (metis floor_of_int of_int_mult of_int_numeral of_int_power)
    have "bitlen n \<le> 53" using 2 by (simp add: bitlen_le_iff_power)
    then have "quantum (of_int n * 2 ^ k) \<le> k"
      using 2 by (simp add: quantum_def fl)
    then show ?thesis by (rule rnd53_fix) simp
  next
    case 3
    have fl: "\<lfloor>rat_of_int (2 ^ 52) * 2 ^ Suc k\<rfloor> = 2 ^ 52 * 2 ^ Suc k"
      by (metis floor_of_int of_int_mult of_int_numeral of_int_power)
    have "bitlen (2 ^ 52) \<le> 53" by (simp add: bitlen_le_iff_power)
    moreover have "bitlen (2 ^ 52 * 2 ^ Suc k) = bitlen (2 ^ 52) + int (Suc k)"
      by (rule bitlen_pow2) simp
    ultimately have "quantum (of_int (2 ^ 52) * 2 ^ Suc k) \<le> Suc k"
      unfolding quantum_def fl by linarith
    then have "rnd53 (of_int (2 ^ 52) * 2 ^ Suc k) = of_int (2 ^ 52) * 2 ^ Suc k"
      by (rule rnd53_fix) simp
    with 3 show ?thesis by simp
  qed
qed

lemma rnd53_idem: "0 \<le> y \<Longrightarrow> rnd53 (rnd53 y) = rnd53 y"
proof -
  assume y: "0 \<le> y"
  let ?n = "rhe (y / 2 ^ quantum y)"
  have "0 \<le> \<lfloor>y / 2 ^ quantum y\<rfloor>" using y by simp
  with rhe_bounds(1)[of "y / 2 ^ quantum y"] have n0: "0 \<le> ?n" by linarith
  have "y / 2 ^ quantum y \<le> of_int (2 ^ 53)"
    using quantum_upper[of y] by (simp add: divide_le_eq)
  then have n1: "?n \<le> 2 ^ 53"
    using rhe_mono rhe_of_int by metis
  show ?thesis
    unfolding rnd53_def[of y] using rnd53_exact[OF n0 n1] .
qed


lemma denorm_pos: "0 < denorm"
  by (simp add: denorm_def)

lemma rnd53_0: "rnd53 0 = 0"
  using rnd53_exact[of 0 0] by simp

lemma rnd_0: "rnd 0 = 0"
  by (simp add: rnd_def)

lemma rnd_minus: "rnd (- x) = - rnd x"
  by (simp add: rnd_def sgn_minus)

lemma rnd_nonneg_eq: "0 \<le> x \<Longrightarrow> rnd x = rnd53 (x * denorm) / denorm"
  by (cases "x = 0") (simp_all add: rnd_def rnd53_0)

lemma rnd_nonneg: "0 \<le> x \<Longrightarrow> 0 \<le> rnd x"
  using denorm_pos by (simp add: rnd_nonneg_eq rnd53_nonneg)

lemma rnd_mono_nonneg: "0 \<le> x \<Longrightarrow> x \<le> y \<Longrightarrow> rnd x \<le> rnd y"
proof -
  assume x: "0 \<le> x" and xy: "x \<le> y"
  have "x * denorm \<le> y * denorm"
    using xy denorm_pos by (simp add: mult_right_mono)
  then have "rnd53 (x * denorm) \<le> rnd53 (y * denorm)" by (rule rnd53_mono)
  then show ?thesis
    using x xy denorm_pos by (simp add: rnd_nonneg_eq divide_right_mono)
qed

lemma rnd_mono: "x \<le> y \<Longrightarrow> rnd x \<le> rnd y"
proof -
  assume xy: "x \<le> y"
  consider "0 \<le> x" | "y \<le> 0" | "x < 0" "0 < y" by linarith
  then show ?thesis
  proof cases
    case 1
    then show ?thesis using xy by (rule rnd_mono_nonneg)
  next
    case 2
    then have "rnd (- y) \<le> rnd (- x)" using xy by (intro rnd_mono_nonneg) simp_all
    then show ?thesis by (simp add: rnd_minus)
  next
    case 3
    have "0 \<le> rnd (- x)" using 3 by (intro rnd_nonneg) simp
    moreover have "0 \<le> rnd y" using 3 by (intro rnd_nonneg) simp
    ultimately show ?thesis by (simp add: rnd_minus)
  qed
qed

lemma rnd_idem_nonneg: "0 \<le> x \<Longrightarrow> rnd (rnd x) = rnd x"
proof -
  assume x: "0 \<le> x"
  then have "0 \<le> x * denorm" using denorm_pos by simp
  then have "rnd53 (rnd53 (x * denorm)) = rnd53 (x * denorm)" by (rule rnd53_idem)
  moreover have "rnd (rnd x) = rnd53 (rnd x * denorm) / denorm"
    using x by (intro rnd_nonneg_eq rnd_nonneg)
  moreover have "rnd x * denorm = rnd53 (x * denorm)"
    using x denorm_pos by (simp add: rnd_nonneg_eq)
  ultimately show ?thesis using x by (simp add: rnd_nonneg_eq)
qed

lemma rnd_idem: "rnd (rnd x) = rnd x"
proof (cases "0 \<le> x")
  case True
  then show ?thesis by (rule rnd_idem_nonneg)
next
  case False
  then have "rnd (rnd (- x)) = rnd (- x)" by (intro rnd_idem_nonneg) simp
  then show ?thesis by (simp add: rnd_minus)
qed

lemma rnd_exact:
  assumes "\<bar>n\<bar> \<le> 2 ^ 53"
  shows "rnd (of_int n * 2 ^ k / denorm) = of_int n * 2 ^ k / denorm"
proof -
  have pos: "rnd (of_int m * 2 ^ k / denorm) = of_int m * 2 ^ k / denorm"
    if "0 \<le> m" "m \<le> 2 ^ 53" for m
  proof -
    have "0 \<le> rat_of_int m * 2 ^ k / denorm" using that denorm_pos by simp
    then have "rnd (of_int m * 2 ^ k / denorm) = rnd53 (of_int m * 2 ^ k / denorm * denorm) / denorm"
      by (rule rnd_nonneg_eq)
    also have "of_int m * 2 ^ k / denorm * denorm = rat_of_int m * 2 ^ k"
      using denorm_pos by simp
    also have "rnd53 (rat_of_int m * 2 ^ k) = rat_of_int m * 2 ^ k"
      using that by (rule rnd53_exact)
    finally show ?thesis .
  qed
  show ?thesis
  proof (cases "0 \<le> n")
    case True
    with assms show ?thesis by (intro pos) simp_all
  next
    case False
    with assms have "rnd (of_int (- n) * 2 ^ k / denorm) = of_int (- n) * 2 ^ k / denorm"
      by (intro pos) simp_all
    then show ?thesis using rnd_minus[of "of_int n * 2 ^ k / denorm"] by simp
  qed
qed

lemma rnd_of_int: "\<bar>n\<bar> \<le> 2 ^ 53 \<Longrightarrow> rnd (of_int n) = of_int n"
  using rnd_exact[of n 1074] by (simp add: denorm_def)

lemma rnd_dyadic:
  assumes "\<bar>n\<bar> \<le> 2 ^ 53" and "j \<le> 1074"
  shows "rnd (of_int n / 2 ^ j) = of_int n / 2 ^ j"
proof -
  have e: "(1074 - j) + j = 1074" using assms(2) by simp
  have d: "denorm = 2 ^ (1074 - j) * 2 ^ j"
    unfolding denorm_def power_add[symmetric] e ..
  have "rat_of_int n * 2 ^ (1074 - j) / denorm = of_int n / 2 ^ j"
    unfolding d by simp
  with rnd_exact[OF assms(1), of "1074 - j"] show ?thesis by simp
qed

lemma rnd_grid: "\<exists>m. rnd x = of_int m / denorm"
proof -
  let ?n = "rhe (\<bar>x\<bar> * denorm / 2 ^ quantum (\<bar>x\<bar> * denorm))"
  let ?q = "quantum (\<bar>x\<bar> * denorm)"
  consider "x = 0" | "0 < x" | "x < 0" by linarith
  then show ?thesis
  proof cases
    case 1
    then have "rnd x = of_int 0 / denorm" by (simp add: rnd_0)
    then show ?thesis by blast
  next
    case 2
    then have "rnd x = of_int (?n * 2 ^ ?q) / denorm" by (simp add: rnd_def rnd53_def)
    then show ?thesis by blast
  next
    case 3
    then have "rnd x = of_int (- (?n * 2 ^ ?q)) / denorm" by (simp add: rnd_def rnd53_def)
    then show ?thesis by blast
  qed
qed

lemma rnd_sub_neg:
  assumes "a = rnd a'" and "b = rnd b'"
  shows "rnd (a - b) < 0 \<longleftrightarrow> a < b"
proof
  assume "rnd (a - b) < 0"
  then have "\<not> 0 \<le> a - b" using rnd_nonneg[of "a - b"] by linarith
  then show "a < b" by simp
next
  assume lt: "a < b"
  obtain m n where a: "a = of_int m / denorm" and b: "b = of_int n / denorm"
    using assms rnd_grid by metis
  from lt have "rat_of_int m < of_int n"
    using denorm_pos by (simp add: a b divide_less_cancel)
  then have "m - n \<le> - 1" by simp
  then have "rat_of_int (m - n) \<le> of_int (- 1)" by (simp only: of_int_le_iff)
  moreover have "a - b = rat_of_int (m - n) / denorm"
    by (simp add: a b diff_divide_distrib)
  ultimately have "a - b \<le> of_int (- 1) / denorm"
    using denorm_pos by (simp only: divide_right_mono less_imp_le)
  then have "a - b \<le> of_int (- 1) * 2 ^ 0 / denorm" by simp
  then have "rnd (a - b) \<le> rnd (of_int (- 1) * 2 ^ 0 / denorm)" by (rule rnd_mono)
  also have "\<dots> = of_int (- 1) * 2 ^ 0 / denorm" by (rule rnd_exact) simp
  also have "\<dots> < 0" using denorm_pos by simp
  finally show "rnd (a - b) < 0" .
qed

lemma rnd_normal:
  assumes "j \<le> 1074" and "2 ^ 52 \<le> x * 2 ^ j" and "x * 2 ^ j < 2 ^ 53"
  shows "rnd x = of_int (rhe (x * 2 ^ j)) / 2 ^ j"
proof -
  let ?k = "1074 - j"
  have e: "j + ?k = 1074" using assms(1) by simp
  have d: "denorm = 2 ^ j * 2 ^ ?k"
    unfolding denorm_def power_add[symmetric] e ..
  have "(0::rat) < 2 ^ 52" by simp
  with assms(2) have "0 < x * 2 ^ j" by linarith
  then have x: "0 < x" by (simp add: zero_less_mult_iff)
  have y: "x * denorm = (x * 2 ^ j) * 2 ^ ?k" by (simp add: d)
  have lo: "of_int (2 ^ (52 + ?k)) \<le> x * denorm"
    unfolding y using assms(2) by (simp add: power_add mult_right_mono)
  have hi: "x * denorm < of_int (2 ^ (53 + ?k))"
    unfolding y using assms(3) by (simp add: power_add mult_strict_right_mono)
  have flo: "2 ^ (52 + ?k) \<le> \<lfloor>x * denorm\<rfloor>" using lo by (simp only: le_floor_iff)
  have fhi: "\<lfloor>x * denorm\<rfloor> < 2 ^ (53 + ?k)" using hi by (simp only: floor_less_iff)
  have "bitlen \<lfloor>x * denorm\<rfloor> \<le> int (53 + ?k)"
    unfolding bitlen_le_iff_power nat_int using fhi by simp
  moreover have "53 + ?k - 1 = 52 + ?k" by simp
  then have "int (53 + ?k) \<le> bitlen \<lfloor>x * denorm\<rfloor>"
    unfolding bitlen_ge_iff_power nat_int using flo by simp
  ultimately have q: "quantum (x * denorm) = ?k"
    by (simp add: quantum_def)
  have "rnd x = rnd53 (x * denorm) / denorm" using x by (intro rnd_nonneg_eq) simp
  also have "\<dots> = of_int (rhe (x * 2 ^ j)) * 2 ^ ?k / denorm"
    unfolding rnd53_def q by (simp add: y)
  also have "\<dots> = of_int (rhe (x * 2 ^ j)) / 2 ^ j"
    by (simp add: d)
  finally show ?thesis .
qed

lemma rnd_numeral: "numeral k \<le> (2 ^ 53 :: int) \<Longrightarrow> rnd (numeral k) = numeral k"
  using rnd_of_int[of "numeral k"] by simp

lemma rnd_1: "rnd 1 = 1"
  using rnd_of_int[of 1] by simp

lemma rnd_half: "rnd (1 / 2) = 1 / 2"
  using rnd_dyadic[of 1 1] by simp

lemma rnd_between:
  assumes "a \<le> x" and "x \<le> b" and "rnd a = a" and "rnd b = b"
  shows "a \<le> rnd x \<and> rnd x \<le> b"
  using rnd_mono[OF assms(1)] rnd_mono[OF assms(2)] assms(3,4) by simp

lemma rnd_pos_imp: "0 < rnd x \<Longrightarrow> 0 < x"
proof (rule ccontr)
  assume p: "0 < rnd x" and "\<not> 0 < x"
  then have "x \<le> 0" by simp
  then have "rnd x \<le> rnd 0" by (rule rnd_mono)
  with p show False by (simp add: rnd_0)
qed

lemma divide_pos_num: "0 < (a::rat) / b \<Longrightarrow> 0 < b \<Longrightarrow> 0 < a"
  by (simp add: zero_less_divide_iff)

lemma rnd_neg_numeral: "numeral k \<le> (2 ^ 53 :: int) \<Longrightarrow> rnd (- numeral k) = - numeral k"
  by (simp add: rnd_minus rnd_numeral)

lemma rnd_sub_le:
  assumes "a = rnd a'" and "b = rnd b'"
  shows "fsub a b \<le> 0 \<longleftrightarrow> a \<le> b"
proof -
  have "rnd (b - a) = - rnd (a - b)" using rnd_minus[of "a - b"] by simp
  then have "fsub a b \<le> 0 \<longleftrightarrow> \<not> rnd (b - a) < 0" by (auto simp: fsub_def)
  also have "\<dots> \<longleftrightarrow> \<not> b < a" using rnd_sub_neg[OF assms(2) assms(1)] by simp
  finally show ?thesis by auto
qed

lemmas scene_defs = scene_def emptyLayer_def shape_def isKindOfClass_def

section \<open>The background extractor\<close>

text \<open>
  C1. On the symbol instance of \<open>symbolScene\<close>, whose master has the children
  [text layer, red shape], \<open>getLayerBackground\<close> returns \<open>null\<close> and not the
  red of the shape child: the \<open>return\<close> in the scan of the children leaves the
  \<open>forEach\<close> callback only. On the shape child itself the function returns red.
\<close>

theorem getLayerBackground_symbol_instance:
  "getLayerBackground symbolScene 1 = Inr None \<and>
   getLayerBackground symbolScene 4 = Inr (Some \<lparr>red = 1, green = 0, blue = 0\<rparr>)"
  by (simp add: symbolScene_def scene_defs getLayerBackground_def childBackground_def
      firstFillColor_def)

text \<open>
  C3, as the code has it. On a shape \<open>getLayerBackground\<close> returns the colour of the
  first fill when the fill list is not empty; on an empty fill list the access to the
  first fill is not guarded and raises.
\<close>

theorem getLayerBackground_shape:
  "isKindOfClass w l MSShapeGroup \<Longrightarrow>
   getLayerBackground w l =
     (case fills (heap w l) of [] \<Rightarrow> Inl TypeError | c # cs \<Rightarrow> Inr (Some c))"
  by (simp add: getLayerBackground_def firstFillColor_def split: list.splits)

theorem getLayerBackground_shape_witness:
  "isKindOfClass shapeScene 2 MSShapeGroup \<and>
   getLayerBackground shapeScene 2 = Inr (Some \<lparr>red = 1, green = 0, blue = 0\<rparr>)"
  using getLayerBackground_shape[of shapeScene 2]
  by (simp add: shapeScene_def scene_defs)

text \<open>C3 as stated fails on the shape without fills: the result is not \<open>null\<close>.\<close>

theorem getLayerBackground_no_fill_counterexample:
  "isKindOfClass shapeScene 1 MSShapeGroup \<and> fills (heap shapeScene 1) = [] \<and>
   getLayerBackground shapeScene 1 = Inl TypeError \<and>
   getLayerBackground shapeScene 1 \<noteq> Inr None"
  by (simp add: shapeScene_def scene_defs getLayerBackground_def firstFillColor_def)

section \<open>The colour model\<close>

text \<open>
  C2, as the code has it. On the colour \<open>(1, 1, 0.5)\<close> the red channel equals the
  maximum, so the first branch of the case split computes the hue, and the hue is 60.
\<close>

theorem hsvOf_tie_hue:
  "red \<lparr>red = 1, green = 1, blue = 1 / 2\<rparr> = max (max 1 1) (1 / 2) \<and>
   hue (hsvOf \<lparr>red = 1, green = 1, blue = 1 / 2\<rparr>)
     = fmul 60 (fdiv (fsub (fsub 1 (1 / 2)) (fsub (1 / 2) (1 / 2))) (fsub 1 (1 / 2))) \<and>
   hue (hsvOf \<lparr>red = 1, green = 1, blue = 1 / 2\<rparr>) = 60"
  by (simp add: hsvOf_def hueOf_def Let_def fsub_def fdiv_def fmul_def fadd_def
      rnd_0 rnd_1 rnd_half rnd_numeral)

text \<open>C2 as stated fails: the hue of \<open>(1, 1, 0.5)\<close> is not 0.\<close>

theorem hsvOf_tie_counterexample:
  "hue (hsvOf \<lparr>red = 1, green = 1, blue = 1 / 2\<rparr>) \<noteq> 0"
  by (simp add: hsvOf_def hueOf_def Let_def fsub_def fdiv_def fmul_def fadd_def
      rnd_0 rnd_1 rnd_half rnd_numeral)

text \<open>
  The divisions of \<open>hsvOf\<close> have positive divisors: the value where the
  saturation is computed, and the chroma where the hue is computed.
\<close>

lemma hsvOf_divisors_positive:
  assumes "0 < sat (hsvOf c)"
  shows "0 < val (hsvOf c) \<and> 0 < chroma (hsvOf c)"
proof -
  let ?mx = "max (max (red c) (green c)) (blue c)"
  let ?chr = "fsub ?mx (min (min (red c) (green c)) (blue c))"
  from assms have v: "0 < ?mx" and s: "0 < fdiv ?chr ?mx"
    by (simp_all add: hsvOf_def Let_def split: if_splits)
  from s have "0 < ?chr / ?mx" unfolding fdiv_def by (rule rnd_pos_imp)
  then have "0 < ?chr" using v by (rule divide_pos_num)
  with v show ?thesis by (simp add: hsvOf_def Let_def)
qed

text \<open>
  C7. On a colour with three equal channels the saturation and the hue of the descriptor
  are 0. No input makes the computation fail: \<open>constructLayerColor\<close> returns a
  descriptor for every colour that \<open>getLayerBackground\<close> yields, and where
  \<open>hsvOf\<close> divides by the chroma, the chroma is positive.
\<close>

theorem hsvOf_grey:
  "(red c = green c \<and> green c = blue c \<longrightarrow> sat (hsvOf c) = 0 \<and> hue (hsvOf c) = 0) \<and>
   (getLayerBackground w l = Inr (Some c) \<longrightarrow> constructLayerColor w l = Inr (Some (hsvOf c))) \<and>
   (0 < sat (hsvOf c) \<longrightarrow> 0 < val (hsvOf c) \<and> 0 < chroma (hsvOf c))"
proof (intro conjI impI)
  assume "red c = green c \<and> green c = blue c"
  then show "sat (hsvOf c) = 0" "hue (hsvOf c) = 0"
    by (simp_all add: hsvOf_def Let_def fsub_def fdiv_def rnd_0)
next
  assume "getLayerBackground w l = Inr (Some c)"
  then show "constructLayerColor w l = Inr (Some (hsvOf c))"
    by (simp add: constructLayerColor_def)
next
  assume "0 < sat (hsvOf c)"
  then show "0 < val (hsvOf c)" "0 < chroma (hsvOf c)"
    using hsvOf_divisors_positive by simp_all
qed

theorem hsvOf_grey_witness:
  "sat (hsvOf \<lparr>red = 1 / 2, green = 1 / 2, blue = 1 / 2\<rparr>) = 0 \<and>
   hue (hsvOf \<lparr>red = 1 / 2, green = 1 / 2, blue = 1 / 2\<rparr>) = 0 \<and>
   getLayerBackground shapeScene 2 = Inr (Some \<lparr>red = 1, green = 0, blue = 0\<rparr>) \<and>
   constructLayerColor shapeScene 2 = Inr (Some (hsvOf \<lparr>red = 1, green = 0, blue = 0\<rparr>)) \<and>
   0 < sat (hsvOf \<lparr>red = 1, green = 0, blue = 0\<rparr>) \<and>
   0 < val (hsvOf \<lparr>red = 1, green = 0, blue = 0\<rparr>) \<and>
   0 < chroma (hsvOf \<lparr>red = 1, green = 0, blue = 0\<rparr>)"
proof -
  have bg: "getLayerBackground shapeScene 2 = Inr (Some \<lparr>red = 1, green = 0, blue = 0\<rparr>)"
    by (simp add: shapeScene_def scene_defs getLayerBackground_def firstFillColor_def)
  have s: "0 < sat (hsvOf \<lparr>red = 1, green = 0, blue = 0\<rparr>)"
    by (simp add: hsvOf_def Let_def fsub_def fdiv_def rnd_1)
  from hsvOf_grey[of "\<lparr>red = 1 / 2, green = 1 / 2, blue = 1 / 2\<rparr>" shapeScene 2]
    hsvOf_grey[of "\<lparr>red = 1, green = 0, blue = 0\<rparr>" shapeScene 2] bg s
  show ?thesis by simp
qed

section \<open>The entry point\<close>

lemma collectColorLayers_none:
  "\<forall>c\<in>set ls. getLayerBackground w c = Inr None \<Longrightarrow> collectColorLayers w acc ls = Inr acc"
  by (induction ls arbitrary: acc) simp_all

text \<open>
  The filter raises when \<open>getLayerBackground\<close> raises on a layer; otherwise it keeps,
  in order, the layers that have a background colour.
\<close>

lemma collectColorLayers_raise:
  "\<exists>c\<in>set ls. getLayerBackground w c = Inl TypeError \<Longrightarrow>
   collectColorLayers w acc ls = Inl TypeError"
proof (induction ls arbitrary: acc)
  case Nil
  then show ?case by simp
next
  case (Cons x xs)
  show ?case
  proof (cases "getLayerBackground w x")
    case (Inl e)
    then show ?thesis by (cases e) simp
  next
    case (Inr bg)
    with Cons.prems have "\<exists>c\<in>set xs. getLayerBackground w c = Inl TypeError" by auto
    then have "collectColorLayers w (if bg \<noteq> None then acc @ [x] else acc) xs = Inl TypeError"
      by (rule Cons.IH)
    with Inr show ?thesis by simp
  qed
qed

lemma collectColorLayers_filter:
  "\<forall>c\<in>set ls. getLayerBackground w c \<noteq> Inl TypeError \<Longrightarrow>
   collectColorLayers w acc ls = Inr (acc @ filter (\<lambda>c. getLayerBackground w c \<noteq> Inr None) ls)"
proof (induction ls arbitrary: acc)
  case Nil
  then show ?case by simp
next
  case (Cons x xs)
  then have ih: "collectColorLayers w acc' xs
      = Inr (acc' @ filter (\<lambda>c. getLayerBackground w c \<noteq> Inr None) xs)" for acc'
    by simp
  show ?case
  proof (cases "getLayerBackground w x")
    case (Inl e)
    with Cons.prems show ?thesis by (cases e) simp
  next
    case (Inr bg)
    then show ?thesis by (cases bg) (simp_all add: ih)
  qed
qed

text \<open>
  Only a shape yields a colour, so the layers that pass the filter are shapes, and an
  artboard is never one of them.
\<close>

lemma getLayerBackground_color_shape:
  "getLayerBackground w l = Inr (Some c) \<Longrightarrow> isKindOfClass w l MSShapeGroup"
  by (auto simp: getLayerBackground_def split: if_splits sum.splits option.splits)

lemma collectColorLayers_shapes:
  "collectColorLayers w acc ls = Inr cs \<Longrightarrow>
   \<forall>l\<in>set acc. isKindOfClass w l MSShapeGroup \<Longrightarrow>
   \<forall>l\<in>set cs. isKindOfClass w l MSShapeGroup"
proof (induction ls arbitrary: acc)
  case Nil
  then show ?case by simp
next
  case (Cons x xs)
  show ?case
  proof (cases "getLayerBackground w x")
    case (Inl e)
    with Cons.prems show ?thesis by simp
  next
    case (Inr bg)
    show ?thesis
    proof (cases bg)
      case None
      with Inr Cons.prems have "collectColorLayers w acc xs = Inr cs" by simp
      then show ?thesis using Cons.prems(2) by (rule Cons.IH)
    next
      case (Some c)
      with Inr have "isKindOfClass w x MSShapeGroup"
        by (intro getLayerBackground_color_shape) simp
      moreover from Some Inr Cons.prems have "collectColorLayers w (acc @ [x]) xs = Inr cs" by simp
      ultimately show ?thesis using Cons.prems(2) by (intro Cons.IH[of "acc @ [x]"]) simp_all
    qed
  qed
qed

lemma getLayersWithBackgroundColor_no_artboard:
  assumes "getLayersWithBackgroundColor w ls = Inr cs" and "isKindOfClass w a MSArtboardGroup"
  shows "a \<notin> set cs"
proof
  assume "a \<in> set cs"
  moreover have "\<forall>l\<in>set cs. isKindOfClass w l MSShapeGroup"
    using assms(1) unfolding getLayersWithBackgroundColor_def
    by (rule collectColorLayers_shapes) simp
  ultimately have "isKindOfClass w a MSShapeGroup" by simp
  with assms(2) show False by (simp add: isKindOfClass_def)
qed

text \<open>
  C8. On an empty selection \<open>sortByHue\<close> shows the message
  \<open>No layers selected!\<close> and returns; the layers, the page and the handles of the
  document are as before.
\<close>

theorem sortByHue_empty_selection:
  "sortByHue w [] = Inr (w\<lparr>messages := messages w @ [''No layers selected!'']\<rparr>)"
  by (simp add: sortByHue_def showMessage_def)

section \<open>The range of the hue\<close>

lemma hue_term_bounds:
  assumes chr: "0 < chr" "rnd chr = chr"
    and u: "0 \<le> u" "u \<le> chr" and v: "0 \<le> v" "v \<le> chr"
  shows "- 60 \<le> fmul 60 (fdiv (fsub u v) chr) \<and> fmul 60 (fdiv (fsub u v) chr) \<le> 60"
proof -
  let ?d = "fsub u v"
  let ?q = "fdiv ?d chr"
  have "- chr \<le> u - v" "u - v \<le> chr" using u v by simp_all
  moreover have "rnd (- chr) = - chr" by (simp add: rnd_minus chr)
  ultimately have d: "- chr \<le> ?d \<and> ?d \<le> chr"
    unfolding fsub_def using chr(2) by (intro rnd_between)
  then have "- 1 \<le> ?d / chr" "?d / chr \<le> 1"
    using chr(1) by (simp_all add: le_divide_eq divide_le_eq)
  moreover have "rnd (- 1) = - 1" by (simp add: rnd_minus rnd_1)
  ultimately have q: "- 1 \<le> ?q \<and> ?q \<le> 1"
    unfolding fdiv_def using rnd_1 by (intro rnd_between)
  then have "- 60 \<le> 60 * ?q" "60 * ?q \<le> 60" by simp_all
  moreover have "rnd (- 60) = - 60" "rnd 60 = 60"
    by (simp_all add: rnd_neg_numeral rnd_numeral)
  ultimately show ?thesis
    unfolding fmul_def by (intro rnd_between)
qed

lemma channel_bounds:
  assumes "mn \<le> x" and "x \<le> mx"
  shows "0 \<le> fsub x mn \<and> fsub x mn \<le> fsub mx mn"
proof -
  have "0 \<le> rnd (x - mn)" using assms(1) by (intro rnd_nonneg) simp
  moreover have "rnd (x - mn) \<le> rnd (mx - mn)" using assms(2) by (intro rnd_mono) simp
  ultimately show ?thesis by (simp add: fsub_def)
qed

lemma hueOf_bounds:
  assumes chr: "0 < fsub mx mn"
    and r: "mn \<le> r" "r \<le> mx" and g: "mn \<le> g" "g \<le> mx" and b: "mn \<le> b" "b \<le> mx"
  shows "0 \<le> hueOf r g b mx mn (fsub mx mn) \<and> hueOf r g b mx mn (fsub mx mn) \<le> 360"
proof -
  let ?chr = "fsub mx mn"
  have idem: "rnd ?chr = ?chr" by (simp add: fsub_def rnd_idem)
  note cr = channel_bounds[OF r] and cg = channel_bounds[OF g] and cb = channel_bounds[OF b]
  let ?hr = "fmul 60 (fdiv (fsub (fsub g mn) (fsub b mn)) ?chr)"
  let ?hg = "fmul 60 (fdiv (fsub (fsub b mn) (fsub r mn)) ?chr)"
  let ?hb = "fmul 60 (fdiv (fsub (fsub r mn) (fsub g mn)) ?chr)"
  have hr: "- 60 \<le> ?hr \<and> ?hr \<le> 60"
    using chr idem cg cb by (intro hue_term_bounds) simp_all
  have hg: "- 60 \<le> ?hg \<and> ?hg \<le> 60"
    using chr idem cb cr by (intro hue_term_bounds) simp_all
  have hb: "- 60 \<le> ?hb \<and> ?hb \<le> 60"
    using chr idem cr cg by (intro hue_term_bounds) simp_all
  have c300: "rnd 300 = 300" and c360: "rnd 360 = 360" and c60: "rnd 60 = 60"
    and c180: "rnd 180 = 180"
    by (simp_all add: rnd_numeral)
  have wrap: "300 \<le> fadd ?hr 360 \<and> fadd ?hr 360 \<le> 360" if "?hr < 0"
    unfolding fadd_def using hr that c300 c360 by (intro rnd_between) simp_all
  have gb: "60 \<le> fadd 120 ?hg \<and> fadd 120 ?hg \<le> 180"
    unfolding fadd_def using hg c60 c180 by (intro rnd_between) simp_all
  have bb: "180 \<le> fadd 240 ?hb \<and> fadd 240 ?hb \<le> 300"
    unfolding fadd_def using hb c180 c300 by (intro rnd_between) simp_all
  show ?thesis
    unfolding hueOf_def Let_def using hr wrap gb bb by auto
qed

text \<open>
  C6, as the code has it. Whenever the saturation is positive, the hue lies in the closed
  interval from 0 to 360.
\<close>

theorem hsvOf_hue_range:
  assumes "0 < sat (hsvOf c)"
  shows "0 \<le> hue (hsvOf c) \<and> hue (hsvOf c) \<le> 360"
proof -
  let ?r = "red c" and ?g = "green c" and ?b = "blue c"
  let ?mx = "max (max ?r ?g) ?b" and ?mn = "min (min ?r ?g) ?b"
  let ?chr = "fsub ?mx ?mn"
  from assms have v: "0 < ?mx" and s: "0 < fdiv ?chr ?mx"
    by (simp_all add: hsvOf_def Let_def split: if_splits)
  from hsvOf_divisors_positive[OF assms] have chr: "0 < ?chr"
    by (simp add: hsvOf_def Let_def)
  have "0 \<le> hueOf ?r ?g ?b ?mx ?mn ?chr \<and> hueOf ?r ?g ?b ?mx ?mn ?chr \<le> 360"
    using chr by (intro hueOf_bounds) simp_all
  then show ?thesis
    using v s by (simp add: hsvOf_def Let_def)
qed

theorem hsvOf_hue_range_witness:
  "0 < sat (hsvOf \<lparr>red = 1, green = 1, blue = 1 / 2\<rparr>) \<and>
   0 \<le> hue (hsvOf \<lparr>red = 1, green = 1, blue = 1 / 2\<rparr>) \<and>
   hue (hsvOf \<lparr>red = 1, green = 1, blue = 1 / 2\<rparr>) \<le> 360"
proof -
  have "0 < sat (hsvOf \<lparr>red = 1, green = 1, blue = 1 / 2\<rparr>)"
    by (simp add: hsvOf_def Let_def fsub_def fdiv_def rnd_half)
  with hsvOf_hue_range[of "\<lparr>red = 1, green = 1, blue = 1 / 2\<rparr>"] show ?thesis by simp
qed

text \<open>
  C6 as stated fails: on the colour \<open>(1, 0.5, 0.5 + 2^-53)\<close> the saturation is
  positive and the first branch computes the negative hue \<open>- 60 * 2^-52\<close>; adding
  360 rounds to 360, so the hue is 360 and not below it.
\<close>

theorem hsvOf_hue_360_counterexample:
  "0 < sat (hsvOf \<lparr>red = 1, green = 1 / 2, blue = 1 / 2 + 1 / 2 ^ 53\<rparr>) \<and>
   hue (hsvOf \<lparr>red = 1, green = 1 / 2, blue = 1 / 2 + 1 / 2 ^ 53\<rparr>) = 360"
proof -
  have e1: "rnd (1 / 2 ^ 53) = 1 / 2 ^ 53" using rnd_dyadic[of 1 53] by simp
  have e2: "rnd (- (1 / 2 ^ 53)) = - (1 / 2 ^ 53)" by (simp only: rnd_minus e1)
  have e3: "rnd (- (1 / 2 ^ 52)) = - (1 / 2 ^ 52)" using rnd_dyadic[of "- 1" 52] by simp
  have e4: "rnd (- (60 / 2 ^ 52)) = - (60 / 2 ^ 52)" using rnd_dyadic[of "- 60" 52] by simp
  have "rhe (405323966463344625 / 64) = 6333186975989760" by code_simp
  then have e5: "rnd (360 - 60 / 2 ^ 52) = 360"
    using rnd_normal[of 44 "360 - 60 / 2 ^ 52"] by simp
  have mx: "max (max (1::rat) (1 / 2)) (1 / 2 + 1 / 2 ^ 53) = 1" by simp
  have mn: "min (min (1::rat) (1 / 2)) (1 / 2 + 1 / 2 ^ 53) = 1 / 2" by simp
  have chr: "fsub 1 (1 / 2) = 1 / 2" by (simp add: fsub_def rnd_half)
  have s: "fdiv (1 / 2) 1 = 1 / 2" by (simp add: fdiv_def rnd_half)
  have g: "fsub (1 / 2) (1 / 2) = 0" by (simp add: fsub_def rnd_0)
  have b: "fsub (1 / 2 + 1 / 2 ^ 53) (1 / 2) = 1 / 2 ^ 53" using e1 by (simp add: fsub_def)
  have d: "fsub 0 (1 / 2 ^ 53) = - (1 / 2 ^ 53)" using e2 by (simp add: fsub_def)
  have q: "fdiv (- (1 / 2 ^ 53)) (1 / 2) = - (1 / 2 ^ 52)" using e3 by (simp add: fdiv_def)
  have m: "fmul 60 (- (1 / 2 ^ 52)) = - (60 / 2 ^ 52)" using e4 by (simp add: fmul_def)
  have h: "fadd (- (60 / 2 ^ 52)) 360 = 360" using e5 by (simp add: fadd_def)
  have "hueOf 1 (1 / 2) (1 / 2 + 1 / 2 ^ 53) 1 (1 / 2) (1 / 2) = 360"
    unfolding hueOf_def Let_def g b d q m using h by simp
  then show ?thesis
    unfolding hsvOf_def Let_def by (simp only: color.simps mx mn chr s) simp
qed

section \<open>Sorting by hue\<close>

lemma hue_hsvOf_rnd: "\<exists>q. hue (hsvOf c) = rnd q"
proof -
  have z: "\<exists>q. (0::rat) = rnd q" using rnd_0 by metis
  have "\<exists>q. hueOf r g b mx mn chr = rnd q" for r g b mx mn chr
    unfolding hueOf_def Let_def fadd_def fmul_def using z by (auto simp: rnd_idem intro: exI)
  then show ?thesis
    using z by (simp add: hsvOf_def Let_def)
qed

lemma hueKey_rnd: "\<exists>q. hueKey w l = rnd q"
  using hue_hsvOf_rnd rnd_0 unfolding hueKey_def
  by (auto split: sum.splits option.splits)

lemma getLayerHue_hueKey:
  "getLayerBackground w l \<noteq> Inl TypeError \<Longrightarrow> getLayerHue w l = Inr (hueKey w l)"
  by (cases "getLayerBackground w l")
     (auto simp: getLayerHue_def constructLayerColor_def hueKey_def split: option.splits error.splits,
      metis error.exhaust)

lemma compareHue_hueKey:
  assumes "getLayerBackground w a \<noteq> Inl TypeError" and "getLayerBackground w b \<noteq> Inl TypeError"
  shows "\<exists>c. compareHue w a b = Inr c \<and> (c \<le> 0 \<longleftrightarrow> hueKey w a \<le> hueKey w b)"
proof -
  obtain qa qb where "hueKey w a = rnd qa" "hueKey w b = rnd qb"
    using hueKey_rnd by metis
  then have "fsub (hueKey w a) (hueKey w b) \<le> 0 \<longleftrightarrow> hueKey w a \<le> hueKey w b"
    by (rule rnd_sub_le)
  then show ?thesis
    using assms by (simp add: compareHue_def getLayerHue_hueKey)
qed

lemma insertSorted_hueKey:
  assumes "\<forall>l\<in>set (x # ys). getLayerBackground w l \<noteq> Inl TypeError"
  shows "insertSorted (compareHue w) x ys = Inr (insort_key (hueKey w) x ys)"
  using assms
proof (induction ys)
  case Nil
  then show ?case by simp
next
  case (Cons y ys)
  then obtain c where c: "compareHue w x y = Inr c" "c \<le> 0 \<longleftrightarrow> hueKey w x \<le> hueKey w y"
    using compareHue_hueKey[of w x y] by auto
  from Cons have "insertSorted (compareHue w) x ys = Inr (insort_key (hueKey w) x ys)" by simp
  with c show ?case by simp
qed

lemma arraySort_hueKey:
  assumes "\<forall>l\<in>set ls. getLayerBackground w l \<noteq> Inl TypeError"
  shows "arraySort (compareHue w) ls = Inr (sort_key (hueKey w) ls)"
  using assms
proof (induction ls)
  case Nil
  then show ?case by simp
next
  case (Cons x xs)
  then have ih: "arraySort (compareHue w) xs = Inr (sort_key (hueKey w) xs)" by simp
  have "\<forall>l\<in>set (x # sort_key (hueKey w) xs). getLayerBackground w l \<noteq> Inl TypeError"
    using Cons.prems by simp
  then have "insertSorted (compareHue w) x (sort_key (hueKey w) xs)
      = Inr (insort_key (hueKey w) x (sort_key (hueKey w) xs))"
    by (rule insertSorted_hueKey)
  with ih show ?case by simp
qed

text \<open>The blue, the green and the red shape of \<open>layoutScene\<close>, sorted.\<close>

lemma sortLayersByHue_example: "sortLayersByHue layoutScene [4, 3, 2] = Inr [2, 3, 4]"
  by (simp add: sortLayersByHue_def compareHue_def getLayerHue_def constructLayerColor_def
      getLayerBackground_def firstFillColor_def layoutScene_def scene_defs
      hsvOf_def hueOf_def Let_def fadd_def fsub_def fmul_def fdiv_def
      rnd_0 rnd_1 rnd_numeral rnd_neg_numeral)


text \<open>
  C10, as the code has it. On a list of layers on none of which \<open>getLayerBackground\<close>
  raises, \<open>sortLayersByHue\<close> returns a permutation of the list in which the hue
  keys do not decrease; the key of a layer is the result of \<open>getLayerHue\<close>, which
  is 0 for a layer without a background colour.
\<close>

theorem sortLayersByHue_sorted_permutation:
  assumes "\<forall>l\<in>set ls. getLayerBackground w l \<noteq> Inl TypeError"
  shows "\<exists>k ys. sortLayersByHue w ls = Inr ys \<and> mset ys = mset ls \<and> sorted (map k ys) \<and>
           (\<forall>l\<in>set ls. getLayerHue w l = Inr (k l) \<and>
                        (getLayerBackground w l = Inr None \<longrightarrow> k l = 0))"
proof (intro exI conjI)
  show "sortLayersByHue w ls = Inr (sort_key (hueKey w) ls)"
    using assms by (simp add: sortLayersByHue_def arraySort_hueKey)
  show "mset (sort_key (hueKey w) ls) = mset ls" by simp
  show "sorted (map (hueKey w) (sort_key (hueKey w) ls))" by (rule sorted_sort_key)
  show "\<forall>l\<in>set ls. getLayerHue w l = Inr (hueKey w l) \<and>
          (getLayerBackground w l = Inr None \<longrightarrow> hueKey w l = 0)"
    using assms by (simp add: getLayerHue_hueKey hueKey_def)
qed

theorem sortLayersByHue_sorted_permutation_witness:
  "getLayerBackground layoutScene 4 \<noteq> Inl TypeError \<and>
   getLayerBackground layoutScene 2 \<noteq> Inl TypeError \<and>
   getLayerBackground layoutScene 3 \<noteq> Inl TypeError \<and>
   (\<exists>k ys. sortLayersByHue layoutScene [4, 2, 3] = Inr ys \<and> mset ys = mset [4, 2, 3] \<and>
      sorted (map k ys) \<and> getLayerHue layoutScene 4 = Inr (k 4))"
proof -
  have h: "\<forall>l\<in>set [4, 2, 3]. getLayerBackground layoutScene l \<noteq> Inl TypeError"
    by (simp add: layoutScene_def scene_defs getLayerBackground_def firstFillColor_def)
  from sortLayersByHue_sorted_permutation[OF h] obtain k ys where
    "sortLayersByHue layoutScene [4, 2, 3] = Inr ys" "mset ys = mset [4, 2, 3]"
    "sorted (map k ys)" "getLayerHue layoutScene 4 = Inr (k 4)"
    by auto
  then have "\<exists>k ys. sortLayersByHue layoutScene [4, 2, 3] = Inr ys \<and> mset ys = mset [4, 2, 3] \<and>
      sorted (map k ys) \<and> getLayerHue layoutScene 4 = Inr (k 4)"
    by blast
  with h show ?thesis by simp
qed

text \<open>
  C10 as stated fails on a list that holds a shape without fills: the comparator raises
  and \<open>sortLayersByHue\<close> returns no list.
\<close>

theorem sortLayersByHue_no_fill_counterexample:
  "sortLayersByHue shapeScene [1, 2] = Inl TypeError"
  by (simp add: sortLayersByHue_def compareHue_def getLayerHue_def constructLayerColor_def
      getLayerBackground_def firstFillColor_def shapeScene_def scene_defs)

section \<open>The layout pass\<close>

lemma framesMoved_refl: "framesMoved w w {}"
  by (simp add: framesMoved_def)

lemma framesMoved_trans:
  "framesMoved w w1 S \<Longrightarrow> framesMoved w1 w2 T \<Longrightarrow> framesMoved w w2 (S \<union> T)"
  unfolding framesMoved_def
  apply (intro conjI allI)
        apply simp
        apply simp
       apply simp
      apply (metis (no_types, lifting) layer.surjective layer.update_convs(3))
     apply simp
    apply simp
  apply simp
  done

lemma framesMoved_setLeft: "framesMoved w (setLeft w l v) {l}"
  by (simp add: framesMoved_def setLeft_def setFrame_def)

lemma framesMoved_setTop: "framesMoved w (setTop w l v) {l}"
  by (simp add: framesMoved_def setTop_def setFrame_def)

lemma framesMoved_place: "framesMoved w (setTop (setLeft w l u) l v) {l}"
  using framesMoved_trans[OF framesMoved_setLeft framesMoved_setTop, of w l u l v] by simp

lemma framesMoved_place': "framesMoved w (setLeft (setTop w l u) l v) {l}"
  using framesMoved_trans[OF framesMoved_setTop framesMoved_setLeft, of w l u l v] by simp

lemma positionLayers_framesMoved:
  "positionLayers w a h lastFrame ls = (w', h') \<Longrightarrow> framesMoved w w' (set ls)"
proof (induction w a h lastFrame ls arbitrary: w' h' rule: positionLayers.induct)
  case (1 w artboard h lastFrame)
  then show ?case using framesMoved_refl by simp
next
  case (2 w artboard h l ls)
  from "2.prems" have "framesMoved (setLeft (setTop w l 5) l 5) w' (set ls)"
    by (intro "2.IH") simp
  with framesMoved_trans[OF framesMoved_place'] show ?case by fastforce
next
  case (3 w artboard h p l ls)
  show ?case
  proof (cases "fsub (width (frame (heap w artboard))) 10
           < fadd (fadd (fadd (left (frame (heap w p))) (width (frame (heap w p)))) 5)
                  (width (frame (heap w l)))")
    case True
    let ?w1 = "setLeft w l 5"
    let ?w2 = "setTop ?w1 l (fadd (fadd (top' (frame (heap ?w1 p))) (height (frame (heap ?w1 p)))) 5)"
    from "3.prems" True have "framesMoved ?w2 w' (set ls)"
      by (intro "3.IH"(1)[OF True refl refl]) (simp add: Let_def)
    with framesMoved_trans[OF framesMoved_place] show ?thesis by fastforce
  next
    case False
    let ?w1 = "setLeft w l (fadd (fadd (left (frame (heap w p))) (width (frame (heap w p)))) 5)"
    let ?w2 = "setTop ?w1 l (top' (frame (heap ?w1 p)))"
    from "3.prems" False have "framesMoved ?w2 w' (set ls)"
      by (intro "3.IH"(2)[OF False refl refl]) (simp add: Let_def)
    with framesMoved_trans[OF framesMoved_place] show ?thesis by fastforce
  qed
qed

lemmas layout_defs = layoutLayers_def setLeft_def setTop_def setHeight_def setFrame_def
  fadd_def fsub_def rnd_numeral

text \<open>
  C5. In an artboard of width 100, three layers of width 40 and height 20 are placed at
  (5, 5), (50, 5) and, on a new row, (5, 30); the height of the artboard becomes 55.
\<close>

theorem layoutLayers_three_layers:
  assumes "distinct [artboard, l1, l2, l3]"
    and "width (frame (heap w artboard)) = 100"
    and "width (frame (heap w l1)) = 40" and "height (frame (heap w l1)) = 20"
    and "width (frame (heap w l2)) = 40" and "height (frame (heap w l2)) = 20"
    and "width (frame (heap w l3)) = 40" and "height (frame (heap w l3)) = 20"
  shows "\<exists>w'. layoutLayers w artboard [l1, l2, l3] = Inr w' \<and>
           left (frame (heap w' l1)) = 5 \<and> top' (frame (heap w' l1)) = 5 \<and>
           left (frame (heap w' l2)) = 50 \<and> top' (frame (heap w' l2)) = 5 \<and>
           left (frame (heap w' l3)) = 5 \<and> top' (frame (heap w' l3)) = 30 \<and>
           height (frame (heap w' artboard)) = 55"
  using assms by (simp add: layout_defs Let_def)

theorem layoutLayers_three_layers_witness:
  "distinct [1, 2, 3, 4 :: oid] \<and>
   width (frame (heap layoutScene 1)) = 100 \<and>
   width (frame (heap layoutScene 2)) = 40 \<and> height (frame (heap layoutScene 2)) = 20 \<and>
   width (frame (heap layoutScene 3)) = 40 \<and> height (frame (heap layoutScene 3)) = 20 \<and>
   width (frame (heap layoutScene 4)) = 40 \<and> height (frame (heap layoutScene 4)) = 20 \<and>
   (\<exists>w'. layoutLayers layoutScene 1 [2, 3, 4] = Inr w' \<and>
           left (frame (heap w' 2)) = 5 \<and> top' (frame (heap w' 2)) = 5 \<and>
           left (frame (heap w' 3)) = 50 \<and> top' (frame (heap w' 3)) = 5 \<and>
           left (frame (heap w' 4)) = 5 \<and> top' (frame (heap w' 4)) = 30 \<and>
           height (frame (heap w' 1)) = 55)"
proof -
  have h: "distinct [1, 2, 3, 4 :: oid]"
    "width (frame (heap layoutScene 1)) = 100"
    "width (frame (heap layoutScene 2)) = 40" "height (frame (heap layoutScene 2)) = 20"
    "width (frame (heap layoutScene 3)) = 40" "height (frame (heap layoutScene 3)) = 20"
    "width (frame (heap layoutScene 4)) = 40" "height (frame (heap layoutScene 4)) = 20"
    by (simp_all add: layoutScene_def scene_defs)
  from layoutLayers_three_layers[OF h] h show ?thesis by blast
qed

text \<open>
  C9. The layout pass, run on a non-empty list of layers that does not hold the artboard
  itself, returns; it changes no width, changes no height but the artboard's, changes
  \<open>left\<close> and \<open>top\<close> of the listed layers only, and changes nothing else.
\<close>

theorem layoutLayers_frame_effect:
  assumes "ls \<noteq> []" and "artboard \<notin> set ls"
  shows "\<exists>w'. layoutLayers w artboard ls = Inr w' \<and>
           (\<forall>l. width (frame (heap w' l)) = width (frame (heap w l))) \<and>
           (\<forall>l. l \<noteq> artboard \<longrightarrow> height (frame (heap w' l)) = height (frame (heap w l))) \<and>
           (\<forall>l. l \<notin> set ls \<longrightarrow> left (frame (heap w' l)) = left (frame (heap w l)) \<and>
                                 top' (frame (heap w' l)) = top' (frame (heap w l))) \<and>
           (\<forall>l. heap w' l = (heap w l)\<lparr>frame := frame (heap w' l)\<rparr>) \<and>
           fresh w' = fresh w \<and> page w' = page w \<and> messages w' = messages w"
proof -
  obtain l0 ls' where ls: "ls = l0 # ls'" using assms(1) by (cases ls) auto
  obtain w1 h1 where p: "positionLayers w artboard (fadd (height (frame (heap w l0))) 10) None ls = (w1, h1)"
    by fastforce
  then have m: "framesMoved w w1 (set ls)" by (rule positionLayers_framesMoved)
  have r: "layoutLayers w artboard ls = Inr (setHeight w1 artboard h1)"
    using p by (simp add: layoutLayers_def ls)
  have a: "heap w1 artboard = heap w artboard"
    using m assms(2) by (simp add: framesMoved_def)
  show ?thesis
    unfolding r using m a
    by (intro exI[of _ "setHeight w1 artboard h1"]) (simp add: framesMoved_def setHeight_def setFrame_def)
qed

theorem layoutLayers_frame_effect_witness:
  "[2, 3, 4] \<noteq> ([] :: oid list) \<and> (1 :: oid) \<notin> set [2, 3, 4] \<and>
   (\<exists>w'. layoutLayers layoutScene 1 [2, 3, 4] = Inr w' \<and>
      width (frame (heap w' 2)) = 40 \<and> height (frame (heap w' 2)) = 20 \<and>
      width (frame (heap w' 1)) = 100 \<and> left (frame (heap w' 1)) = 0 \<and>
      top' (frame (heap w' 1)) = 0)"
proof -
  have h: "[2, 3, 4] \<noteq> ([] :: oid list)" "(1 :: oid) \<notin> set [2, 3, 4]" by simp_all
  from layoutLayers_frame_effect[OF h, of layoutScene] obtain w' where
    r: "layoutLayers layoutScene 1 [2, 3, 4] = Inr w'"
    and wd: "\<forall>l. width (frame (heap w' l)) = width (frame (heap layoutScene l))"
    and ht: "\<forall>l. l \<noteq> 1 \<longrightarrow> height (frame (heap w' l)) = height (frame (heap layoutScene l))"
    and pos: "\<forall>l. l \<notin> set [2, 3, 4] \<longrightarrow>
                left (frame (heap w' l)) = left (frame (heap layoutScene l)) \<and>
                top' (frame (heap w' l)) = top' (frame (heap layoutScene l))"
    by blast
  have "width (frame (heap w' 2)) = 40" "width (frame (heap w' 1)) = 100"
    using wd by (simp_all add: layoutScene_def scene_defs)
  moreover have "height (frame (heap w' 2)) = 20"
    using ht by (simp add: layoutScene_def scene_defs)
  moreover have "left (frame (heap w' 1)) = 0" "top' (frame (heap w' 1)) = 0"
    using pos by (simp_all add: layoutScene_def scene_defs)
  ultimately show ?thesis using r h by blast
qed

section \<open>The entry point on a selected artboard\<close>

lemma layoutLayers_returns:
  assumes "ls \<noteq> []"
  shows "\<exists>w'. layoutLayers w a ls = Inr w' \<and> messages w' = messages w"
proof -
  obtain l0 ls' where ls: "ls = l0 # ls'" using assms by (cases ls) auto
  obtain w1 h1 where p: "positionLayers w a (fadd (height (frame (heap w l0))) 10) None ls = (w1, h1)"
    by fastforce
  then have "framesMoved w w1 (set ls)" by (rule positionLayers_framesMoved)
  then have "messages (setHeight w1 a h1) = messages w"
    by (simp add: framesMoved_def setHeight_def setFrame_def)
  moreover have "layoutLayers w a ls = Inr (setHeight w1 a h1)"
    using p by (simp add: layoutLayers_def ls)
  ultimately show ?thesis by simp
qed

lemma sortByHue_artboard:
  assumes "isKindOfClass w a MSArtboardGroup"
  shows "sortByHue w [a] =
           (if layers (heap w a) = [] then Inr (showMessage w ''No layers selected!'')
            else case getLayersWithBackgroundColor w (layers (heap w a)) of
                   Inl e \<Rightarrow> Inl e
                 | Inr ls1 \<Rightarrow>
                     if ls1 = [] then Inr (showMessage w ''No layers with background selected!'')
                     else (case sortLayersByHue w ls1 of
                             Inl e \<Rightarrow> Inl e
                           | Inr ls3 \<Rightarrow> layoutLayers w a ls3))"
  using assms by (auto simp: sortByHue_def Let_def split: sum.splits)

text \<open>
  C4, as the code has it. The switch to the children of a single selected artboard comes
  first, and the check for an empty selection is made on the working layers. An empty
  selection ends with \<open>No layers selected!\<close>, and so does a single artboard without
  children. On a single artboard with children, the children are what the filter reads:
  when \<open>getLayerBackground\<close> raises on a child the run raises and shows no message;
  when it raises on none and no child has a background colour the run ends with
  \<open>No layers with background selected!\<close>; when it raises on none and some child has
  a background colour, the children that have one are sorted and laid out in the
  artboard, and no message is shown.
\<close>

theorem sortByHue_validation:
  "sortByHue w [] = Inr (showMessage w ''No layers selected!'') \<and>
   (isKindOfClass w a MSArtboardGroup \<longrightarrow>
      (layers (heap w a) = [] \<longrightarrow>
         sortByHue w [a] = Inr (showMessage w ''No layers selected!'')) \<and>
      ((\<exists>c\<in>set (layers (heap w a)). getLayerBackground w c = Inl TypeError) \<longrightarrow>
         sortByHue w [a] = Inl TypeError) \<and>
      (layers (heap w a) \<noteq> [] \<and>
       (\<forall>c\<in>set (layers (heap w a)). getLayerBackground w c = Inr None) \<longrightarrow>
         sortByHue w [a] = Inr (showMessage w ''No layers with background selected!'')) \<and>
      ((\<forall>c\<in>set (layers (heap w a)). getLayerBackground w c \<noteq> Inl TypeError) \<and>
       (\<exists>c\<in>set (layers (heap w a)). getLayerBackground w c \<noteq> Inr None) \<longrightarrow>
         (\<exists>ls3 w'. sortLayersByHue w
                      (filter (\<lambda>c. getLayerBackground w c \<noteq> Inr None) (layers (heap w a)))
                      = Inr ls3 \<and>
                    layoutLayers w a ls3 = Inr w' \<and>
                    sortByHue w [a] = Inr w' \<and> messages w' = messages w)))"
proof (intro conjI impI)
  show "sortByHue w [] = Inr (showMessage w ''No layers selected!'')"
    by (simp add: sortByHue_def)
next
  assume "isKindOfClass w a MSArtboardGroup" and "layers (heap w a) = []"
  then show "sortByHue w [a] = Inr (showMessage w ''No layers selected!'')"
    by (simp add: sortByHue_artboard)
next
  assume a: "isKindOfClass w a MSArtboardGroup"
    and r: "\<exists>c\<in>set (layers (heap w a)). getLayerBackground w c = Inl TypeError"
  then have "layers (heap w a) \<noteq> []" by auto
  moreover have "getLayersWithBackgroundColor w (layers (heap w a)) = Inl TypeError"
    unfolding getLayersWithBackgroundColor_def using r by (rule collectColorLayers_raise)
  ultimately show "sortByHue w [a] = Inl TypeError"
    using a by (simp add: sortByHue_artboard)
next
  assume a: "isKindOfClass w a MSArtboardGroup"
    and n: "layers (heap w a) \<noteq> [] \<and>
       (\<forall>c\<in>set (layers (heap w a)). getLayerBackground w c = Inr None)"
  then have "getLayersWithBackgroundColor w (layers (heap w a)) = Inr []"
    by (simp add: getLayersWithBackgroundColor_def collectColorLayers_none)
  with a n show "sortByHue w [a] = Inr (showMessage w ''No layers with background selected!'')"
    by (simp add: sortByHue_artboard)
next
  let ?cs = "layers (heap w a)"
  let ?ls1 = "filter (\<lambda>c. getLayerBackground w c \<noteq> Inr None) ?cs"
  assume a: "isKindOfClass w a MSArtboardGroup"
    and c: "(\<forall>c\<in>set ?cs. getLayerBackground w c \<noteq> Inl TypeError) \<and>
            (\<exists>c\<in>set ?cs. getLayerBackground w c \<noteq> Inr None)"
  then have ne: "?cs \<noteq> []" and ne1: "?ls1 \<noteq> []" by (auto simp: filter_empty_conv)
  have f: "getLayersWithBackgroundColor w ?cs = Inr ?ls1"
    using c by (simp add: getLayersWithBackgroundColor_def collectColorLayers_filter)
  have "\<forall>l\<in>set ?ls1. getLayerBackground w l \<noteq> Inl TypeError" using c by simp
  then have s: "sortLayersByHue w ?ls1 = Inr (sort_key (hueKey w) ?ls1)"
    by (simp add: sortLayersByHue_def arraySort_hueKey)
  have "sort_key (hueKey w) ?ls1 \<noteq> []"
    using ne1 by (metis length_sort length_0_conv)
  then obtain w' where l: "layoutLayers w a (sort_key (hueKey w) ?ls1) = Inr w'"
    and m: "messages w' = messages w"
    using layoutLayers_returns by blast
  have "sortByHue w [a] = Inr w'"
    using a ne ne1 f s l by (simp add: sortByHue_artboard)
  with s l m show "\<exists>ls3 w'. sortLayersByHue w ?ls1 = Inr ls3 \<and> layoutLayers w a ls3 = Inr w' \<and>
                    sortByHue w [a] = Inr w' \<and> messages w' = messages w"
    by blast
qed

theorem sortByHue_validation_witness:
  "isKindOfClass artboardScene 1 MSArtboardGroup \<and> layers (heap artboardScene 1) = [] \<and>
   sortByHue artboardScene [1] = Inr (showMessage artboardScene ''No layers selected!'') \<and>
   isKindOfClass artboardScene 2 MSArtboardGroup \<and>
   layers (heap artboardScene 2) = [3] \<and> getLayerBackground artboardScene 3 = Inr None \<and>
   sortByHue artboardScene [2] =
     Inr (showMessage artboardScene ''No layers with background selected!'') \<and>
   isKindOfClass containerScene 1 MSArtboardGroup \<and>
   layers (heap containerScene 1) = [2] \<and> getLayerBackground containerScene 2 = Inl TypeError \<and>
   sortByHue containerScene [1] = Inl TypeError \<and>
   isKindOfClass layoutScene 1 MSArtboardGroup \<and>
   layers (heap layoutScene 1) = [2, 3, 4] \<and>
   getLayerBackground layoutScene 2 = Inr (Some \<lparr>red = 1, green = 0, blue = 0\<rparr>) \<and>
   getLayerBackground layoutScene 3 = Inr (Some \<lparr>red = 0, green = 1, blue = 0\<rparr>) \<and>
   getLayerBackground layoutScene 4 = Inr (Some \<lparr>red = 0, green = 0, blue = 1\<rparr>) \<and>
   (\<exists>ls3 w'. sortLayersByHue layoutScene [2, 3, 4] = Inr ls3 \<and>
              layoutLayers layoutScene 1 ls3 = Inr w' \<and>
              sortByHue layoutScene [1] = Inr w' \<and> messages w' = messages layoutScene)"
proof -
  have e: "isKindOfClass artboardScene 1 MSArtboardGroup" "layers (heap artboardScene 1) = []"
    "isKindOfClass artboardScene 2 MSArtboardGroup" "layers (heap artboardScene 2) = [3]"
    "getLayerBackground artboardScene 3 = Inr None"
    by (simp_all add: artboardScene_def scene_defs getLayerBackground_def)
  have r: "isKindOfClass containerScene 1 MSArtboardGroup" "layers (heap containerScene 1) = [2]"
    "getLayerBackground containerScene 2 = Inl TypeError"
    by (simp_all add: containerScene_def scene_defs getLayerBackground_def firstFillColor_def)
  have c: "isKindOfClass layoutScene 1 MSArtboardGroup" "layers (heap layoutScene 1) = [2, 3, 4]"
    "getLayerBackground layoutScene 2 = Inr (Some \<lparr>red = 1, green = 0, blue = 0\<rparr>)"
    "getLayerBackground layoutScene 3 = Inr (Some \<lparr>red = 0, green = 1, blue = 0\<rparr>)"
    "getLayerBackground layoutScene 4 = Inr (Some \<lparr>red = 0, green = 0, blue = 1\<rparr>)"
    by (simp_all add: layoutScene_def scene_defs getLayerBackground_def firstFillColor_def)
  from sortByHue_validation[of artboardScene 1] e
  have 1: "sortByHue artboardScene [1] = Inr (showMessage artboardScene ''No layers selected!'')"
    by simp
  from sortByHue_validation[of artboardScene 2] e
  have 2: "sortByHue artboardScene [2] =
     Inr (showMessage artboardScene ''No layers with background selected!'')"
    by simp
  from sortByHue_validation[of containerScene 1] r
  have 3: "sortByHue containerScene [1] = Inl TypeError" by simp
  from sortByHue_validation[of layoutScene 1] c
  have 4: "\<exists>ls3 w'. sortLayersByHue layoutScene [2, 3, 4] = Inr ls3 \<and>
              layoutLayers layoutScene 1 ls3 = Inr w' \<and>
              sortByHue layoutScene [1] = Inr w' \<and> messages w' = messages layoutScene"
    by simp
  from e r c 1 2 3 4 show ?thesis by simp
qed


text \<open>
  C4 as stated fails on a single selected artboard without children: it has no child with
  a background colour, and \<open>sortByHue\<close> ends with \<open>No layers selected!\<close>.
\<close>

theorem sortByHue_empty_artboard_counterexample:
  "isKindOfClass artboardScene 1 MSArtboardGroup \<and>
   sortByHue artboardScene [1] = Inr (artboardScene\<lparr>messages := [''No layers selected!'']\<rparr>) \<and>
   sortByHue artboardScene [1] \<noteq>
     Inr (artboardScene\<lparr>messages := [''No layers with background selected!'']\<rparr>)"
  by (simp add: artboardScene_def scene_defs sortByHue_def showMessage_def)

end
